theory Spec2Isabelle
  imports Complex_Main
begin

section \<open>Python values used by \<open>utils/help.py\<close>\<close>

datatype py_error = IndexError | KeyError | AttributeError

text \<open>
  The subscript \<open>xs[i]\<close> of a list or string. From \<open>0\<close> up it reads from the front,
  below \<open>0\<close> from the back (\<open>xs[-1]\<close> is the last element); a position the list does
  not have raises \<open>IndexError\<close>.
\<close>

definition py_index :: "'a list \<Rightarrow> int \<Rightarrow> py_error + 'a" where
  "py_index xs i =
     (if 0 \<le> i \<and> i < int (length xs) then Inr (xs ! nat i)
      else if i < 0 \<and> - int (length xs) \<le> i then Inr (xs ! nat (int (length xs) + i))
      else Inl IndexError)"

text \<open>
  \<open>xs[a:b]\<close>: both bounds are clamped to the list, a negative bound counts from the
  end, and an empty or reversed range is the empty list. A slice never raises.
\<close>

definition py_slice :: "'a list \<Rightarrow> int \<Rightarrow> int \<Rightarrow> 'a list" where
  "py_slice xs a b =
     (let n = int (length xs);
          lo = (if a < 0 then max (a + n) 0 else min a n);
          hi = (if b < 0 then max (b + n) 0 else min b n)
      in take (nat (hi - lo)) (drop (nat lo) xs))"

text \<open>\<open>range(start, stop, step)\<close> for a positive step.\<close>

definition py_range :: "int \<Rightarrow> int \<Rightarrow> int \<Rightarrow> int list" where
  "py_range start stop step =
     map (\<lambda>k. start + int k * step) [0..<nat ((stop - start + step - 1) div step)]"

text \<open>
  \<open>math.ceil(n / d)\<close> for a list length \<open>n\<close> and a positive capacity \<open>d\<close>. The
  source divides as floats; for lengths a Python list can have the quotient's
  fractional part is far above the rounding error, so the ceiling is the exact one
  (lemma \<open>ceil_div_is_ceiling\<close> below).
\<close>

definition ceil_div :: "int \<Rightarrow> int \<Rightarrow> int" where
  "ceil_div n d = - ((- n) div d)"

text \<open>\<open>str(i)\<close> for an integer, as an f-string prints it.\<close>

definition digit_char :: "nat \<Rightarrow> char" where
  "digit_char d = char_of (d + 48)"

fun str_nat :: "nat \<Rightarrow> string" where
  "str_nat n = (if n < 10 then [digit_char n] else str_nat (n div 10) @ [digit_char (n mod 10)])"

declare str_nat.simps [simp del]

definition str_int :: "int \<Rightarrow> string" where
  "str_int i = (if i < 0 then CHR ''-'' # str_nat (nat (- i)) else str_nat (nat i))"

text \<open>
  \<open>s.upper()\<close> on a one-character string. Names of commands are ASCII here: a letter
  \<open>a\<close>..\<open>z\<close> becomes \<open>A\<close>..\<open>Z\<close>, every other ASCII character is unchanged.
\<close>

definition upper_char :: "char \<Rightarrow> char" where
  "upper_char c =
     (if 97 \<le> (of_char c :: nat) \<and> (of_char c :: nat) \<le> 122
      then char_of ((of_char c :: nat) - 32) else c)"

section \<open>The objects of the chat toolkit that the module reads and builds\<close>

record command =
  name :: string
  qualified_name :: string
  signature :: string
  short_doc :: string
  cmd_help :: "string option"
  aliases :: "string list"
  cog_name :: "string option"
  description :: string

text \<open>A category (\<open>commands.Cog\<close>) or a command group: both have a name and a description.\<close>

record cog =
  cog_qualified_name :: string
  cog_description :: string
  cog_emoji :: "string option"

record embed_field =
  field_name :: string
  field_value :: string
  field_inline :: bool

record embed =
  embed_title :: string
  embed_description :: string
  embed_colour :: nat
  embed_fields :: "embed_field list"
  embed_footer :: "string option"

text \<open>
  \<open>Embed.add_field(name, value, inline=True)\<close> appends a field;
  \<open>Embed.set_footer(text)\<close> sets the footer.
\<close>

definition add_field :: "string \<Rightarrow> string \<Rightarrow> bool \<Rightarrow> embed \<Rightarrow> embed" where
  "add_field n v i e =
     e\<lparr>embed_fields := embed_fields e @ [\<lparr>field_name = n, field_value = v, field_inline = i\<rparr>]\<rparr>"

definition set_footer :: "string \<Rightarrow> embed \<Rightarrow> embed" where
  "set_footer t e = e\<lparr>embed_footer := Some t\<rparr>"

text \<open>
  The truth value of an embed, which \<open>if embed := self.pages.get(self.idx)\<close> tests: an
  embed is false only when it has no title, no description, no fields and no footer
  (the colour of every embed built here is set, and counts as well).
\<close>

definition embed_bool :: "embed \<Rightarrow> bool" where
  "embed_bool e \<longleftrightarrow>
     embed_title e \<noteq> [] \<or> embed_description e \<noteq> [] \<or> embed_colour e \<noteq> 0 \<or>
     embed_fields e \<noteq> [] \<or> embed_footer e \<noteq> None"

section \<open>\<open>BasePaginator\<close>\<close>

definition SELECT_MAX_VALUES :: int where
  "SELECT_MAX_VALUES = 25"

record base_paginator =
  n_pages :: int
  idx :: int
  pages :: "int \<rightharpoonup> embed"

definition BasePaginator :: "int \<Rightarrow> base_paginator" where
  "BasePaginator n = \<lparr>n_pages = n, idx = 0, pages = Map.empty\<rparr>"

definition paginator_previous :: "'a base_paginator_scheme \<Rightarrow> 'a base_paginator_scheme" where
  "paginator_previous p = p\<lparr>idx := max (idx p - 1) 0\<rparr>"

definition paginator_next :: "'a base_paginator_scheme \<Rightarrow> 'a base_paginator_scheme" where
  "paginator_next p = p\<lparr>idx := min (idx p + 1) (n_pages p - 1)\<rparr>"

definition paginator_first :: "'a base_paginator_scheme \<Rightarrow> 'a base_paginator_scheme" where
  "paginator_first p = p\<lparr>idx := 0\<rparr>"

definition paginator_last :: "'a base_paginator_scheme \<Rightarrow> 'a base_paginator_scheme" where
  "paginator_last p = p\<lparr>idx := n_pages p - 1\<rparr>"

definition is_first :: "'a base_paginator_scheme \<Rightarrow> bool" where
  "is_first p \<longleftrightarrow> idx p = 0"

definition is_last :: "'a base_paginator_scheme \<Rightarrow> bool" where
  "is_last p \<longleftrightarrow> idx p = n_pages p - 1"

text \<open>The four cursor operations, and a finite sequence of calls of them.\<close>

datatype nav = Previous | Next | First | Last

fun nav_step :: "'a base_paginator_scheme \<Rightarrow> nav \<Rightarrow> 'a base_paginator_scheme" where
  "nav_step p Previous = paginator_previous p"
| "nav_step p Next = paginator_next p"
| "nav_step p First = paginator_first p"
| "nav_step p Last = paginator_last p"

definition nav_run :: "'a base_paginator_scheme \<Rightarrow> nav list \<Rightarrow> 'a base_paginator_scheme" where
  "nav_run p ops = foldl nav_step p ops"

text \<open>\<open>sep.join(xs)\<close>.\<close>

fun str_join :: "string \<Rightarrow> string list \<Rightarrow> string" where
  "str_join sep [] = []"
| "str_join sep [x] = x"
| "str_join sep (x # y # ys) = x @ sep @ str_join sep (y # ys)"

text \<open>\<open>x or d\<close> on strings, and on a string that may be \<open>None\<close>.\<close>

definition str_or :: "string \<Rightarrow> string \<Rightarrow> string" where
  "str_or x d = (if x \<noteq> [] then x else d)"

definition opt_str_or :: "string option \<Rightarrow> string \<Rightarrow> string" where
  "opt_str_or x d = (case x of None \<Rightarrow> d | Some s \<Rightarrow> str_or s d)"

text \<open>
  \<open>if embed := self.pages.get(self.idx)\<close>: the cached embed when there is one and it
  is true, nothing otherwise.
\<close>

definition cache_get :: "(int \<rightharpoonup> embed) \<Rightarrow> int \<Rightarrow> embed option" where
  "cache_get pgs i = (case pgs i of None \<Rightarrow> None | Some e \<Rightarrow> if embed_bool e then Some e else None)"

text \<open>The page-count suffix of a title, \<open>f" [{self.idx + 1}/{self.n_pages}]"\<close>.\<close>

definition page_suffix :: "'a base_paginator_scheme \<Rightarrow> string" where
  "page_suffix self = '' ['' @ str_int (idx self + 1) @ ''/'' @ str_int (n_pages self) @ '']''"

section \<open>\<open>CogHelpPaginator\<close>\<close>

definition commands_per_page :: int where
  "commands_per_page = 8"

record cog_help_paginator = base_paginator +
  chp_cog :: cog
  chp_commands :: "command list"
  chp_prefix :: string

definition CogHelpPaginator :: "cog \<Rightarrow> command list \<Rightarrow> string \<Rightarrow> cog_help_paginator" where
  "CogHelpPaginator c cmds pre =
     \<lparr>n_pages = ceil_div (int (length cmds)) commands_per_page, idx = 0, pages = Map.empty,
      chp_cog = c, chp_commands = cmds, chp_prefix = pre\<rparr>"

definition cog_add_command :: "embed \<Rightarrow> command \<Rightarrow> embed" where
  "cog_add_command e c =
     add_field (qualified_name c @ '' '' @ signature c) (str_or (short_doc c) ''No help for you.'') False e"

definition cog_create_embed :: "cog_help_paginator \<Rightarrow> command list \<Rightarrow> embed" where
  "cog_create_embed self cmds =
     (let e0 = \<lparr>embed_title = cog_qualified_name (chp_cog self) @ '' commands'',
                 embed_description = cog_description (chp_cog self),
                 embed_colour = 11542211, embed_fields = [], embed_footer = None\<rparr>;
          e1 = (if n_pages self > 1 then e0\<lparr>embed_title := embed_title e0 @ page_suffix self\<rparr> else e0);
          e2 = foldl cog_add_command e1 cmds
      in set_footer (''Use '' @ chp_prefix self @ ''help [command] for more info about a command.'') e2)"

definition cog_current :: "cog_help_paginator \<Rightarrow> embed \<times> cog_help_paginator" where
  "cog_current self =
     (case cache_get (pages self) (idx self) of
        Some e \<Rightarrow> (e, self)
      | None \<Rightarrow>
          (let index = idx self * commands_per_page;
               e = cog_create_embed self (py_slice (chp_commands self) index (index + commands_per_page))
           in (e, self\<lparr>pages := (pages self)(idx self \<mapsto> e)\<rparr>)))"

section \<open>\<open>MainHelpPaginator\<close>\<close>

definition categories_per_page :: int where
  "categories_per_page = 9"

text \<open>
  A \<open>dict[Cog, list[Command]]\<close> is the list of its items in insertion order; its keys
  are distinct. Iterating the keys and reading \<open>mapping[k]\<close> for each gives the items
  in that order, so the shared iterator \<open>it\<close> is the list of the items not yet taken
  and \<open>{k: mapping[k] for k in islice(it, n)}\<close> takes the next \<open>n\<close> of them.
\<close>

type_synonym mapping = "(cog \<times> command list) list"

record main_help_paginator = base_paginator +
  mhp_description :: string
  mhp_prefix :: string
  mhp_slices :: "mapping list"

definition slice_step :: "mapping \<times> mapping list \<Rightarrow> int \<Rightarrow> mapping \<times> mapping list" where
  "slice_step st i =
     (case st of (it, slices) \<Rightarrow>
        (drop (nat categories_per_page) it, slices @ [take (nat categories_per_page) it]))"

definition MainHelpPaginator :: "mapping \<Rightarrow> string \<Rightarrow> string \<Rightarrow> main_help_paginator" where
  "MainHelpPaginator m descr pre =
     \<lparr>n_pages = ceil_div (int (length m)) categories_per_page, idx = 0, pages = Map.empty,
      mhp_description = descr, mhp_prefix = pre,
      mhp_slices = snd (foldl slice_step (m, []) (py_range 0 (int (length m)) categories_per_page))\<rparr>"

definition main_add_category :: "embed \<Rightarrow> cog \<times> command list \<Rightarrow> embed" where
  "main_add_category e kv =
     (case kv of (category, cmds) \<Rightarrow>
        if cmds = [] then e
        else add_field (''**'' @ cog_qualified_name category @ ''** ['' @ str_int (int (length cmds)) @ '']'')
               (cog_description category) True e)"

definition main_create_embed :: "main_help_paginator \<Rightarrow> mapping \<Rightarrow> embed" where
  "main_create_embed self m =
     (let e0 = \<lparr>embed_title = ''Kurisu the bot for Nintendo Homebrew'', embed_description = [],
                 embed_colour = 11542211, embed_fields = [], embed_footer = None\<rparr>;
          e1 = e0\<lparr>embed_description := mhp_description self @ [CHR 0x0A, CHR 0x0A]
                 @ ''Below you will find the categories of commands in Kurisu:''\<rparr>;
          e2 = set_footer (''Use '' @ mhp_prefix self
                 @ ''help [category] for more info about a category or select a category below.'') e1;
          e3 = (if n_pages self > 1 then e2\<lparr>embed_title := embed_title e2 @ page_suffix self\<rparr> else e2)
      in foldl main_add_category e3 m)"

definition main_current :: "main_help_paginator \<Rightarrow> py_error + embed \<times> main_help_paginator" where
  "main_current self =
     (case cache_get (pages self) (idx self) of
        Some e \<Rightarrow> Inr (e, self)
      | None \<Rightarrow>
          (case py_index (mhp_slices self) (idx self) of
             Inl err \<Rightarrow> Inl err
           | Inr sl \<Rightarrow>
               (let e = main_create_embed self sl
                in Inr (e, self\<lparr>pages := (pages self)(idx self \<mapsto> e)\<rparr>))))"

section \<open>\<open>CommandHelpPaginator\<close>\<close>

record command_help_paginator = base_paginator +
  cmd_description :: string
  cmd_prefix :: string
  cmd_command :: command

definition CommandHelpPaginator :: "command \<Rightarrow> string \<Rightarrow> command_help_paginator" where
  "CommandHelpPaginator c pre =
     \<lparr>n_pages = 1, idx = 0, pages = Map.empty,
      cmd_description = opt_str_or (cmd_help c) ''No help for you.'',
      cmd_prefix = pre, cmd_command = c\<rparr>"

definition command_create_embed :: "command_help_paginator \<Rightarrow> command \<Rightarrow> embed" where
  "command_create_embed self c =
     (let e0 = \<lparr>embed_title = name c @ '' command'', embed_description = [],
                 embed_colour = 11542211, embed_fields = [], embed_footer = None\<rparr>;
          e1 = e0\<lparr>embed_description := cmd_description self\<rparr>;
          e2 = (if aliases c \<noteq> [] then add_field ''Aliases'' (str_join '' '' (aliases c)) False e1 else e1);
          e3 = add_field ''Usage'' (cmd_prefix self @ '' '' @ qualified_name c @ '' '' @ signature c) False e2
      in set_footer (''Category: '' @ opt_str_or (cog_name c) ''No Category'') e3)"

definition command_current :: "command_help_paginator \<Rightarrow> embed \<times> command_help_paginator" where
  "command_current self = (command_create_embed self (cmd_command self), self)"

section \<open>The three kinds of paginator a view can hold\<close>

datatype paginator =
  MainP main_help_paginator
| CogP cog_help_paginator
| CommandP command_help_paginator

fun p_n_pages :: "paginator \<Rightarrow> int" where
  "p_n_pages (MainP p) = n_pages p"
| "p_n_pages (CogP p) = n_pages p"
| "p_n_pages (CommandP p) = n_pages p"

fun p_idx :: "paginator \<Rightarrow> int" where
  "p_idx (MainP p) = idx p"
| "p_idx (CogP p) = idx p"
| "p_idx (CommandP p) = idx p"

fun p_pages :: "paginator \<Rightarrow> (int \<rightharpoonup> embed)" where
  "p_pages (MainP p) = pages p"
| "p_pages (CogP p) = pages p"
| "p_pages (CommandP p) = pages p"

fun p_nav :: "paginator \<Rightarrow> nav \<Rightarrow> paginator" where
  "p_nav (MainP p) n = MainP (nav_step p n)"
| "p_nav (CogP p) n = CogP (nav_step p n)"
| "p_nav (CommandP p) n = CommandP (nav_step p n)"

fun p_is_first :: "paginator \<Rightarrow> bool" where
  "p_is_first (MainP p) = is_first p"
| "p_is_first (CogP p) = is_first p"
| "p_is_first (CommandP p) = is_first p"

fun p_is_last :: "paginator \<Rightarrow> bool" where
  "p_is_last (MainP p) = is_last p"
| "p_is_last (CogP p) = is_last p"
| "p_is_last (CommandP p) = is_last p"

fun p_current :: "paginator \<Rightarrow> py_error + embed \<times> paginator" where
  "p_current (MainP p) =
     (case main_current p of Inl err \<Rightarrow> Inl err | Inr (e, p') \<Rightarrow> Inr (e, MainP p'))"
| "p_current (CogP p) = (case cog_current p of (e, p') \<Rightarrow> Inr (e, CogP p'))"
| "p_current (CommandP p) = (case command_current p of (e, p') \<Rightarrow> Inr (e, CommandP p'))"

section \<open>The selectors\<close>

record user =
  user_id :: nat

text \<open>
  What the module reads of the invocation context: the bot's emoji and description, the
  two prefixes, the requester, and the bot's lookups of a category and of a command by name.
\<close>

record invocation =
  bot_emoji :: "string option"
  bot_description :: string
  ctx_prefix :: string
  clean_prefix :: string
  ctx_author :: user
  get_cog :: "string \<Rightarrow> cog option"
  get_command :: "string \<Rightarrow> command option"

record select_option =
  opt_label :: string
  opt_value :: string
  opt_description :: string
  opt_emoji :: "string option"

record category_select =
  cs_placeholder :: string
  cs_ctx :: invocation
  cs_mapping :: mapping
  cs_options :: "select_option list"

definition category_add_option :: "select_option list \<Rightarrow> cog \<times> command list \<Rightarrow> select_option list" where
  "category_add_option opts kv =
     (case kv of (c, cmds) \<Rightarrow>
        if cmds = [] then opts
        else opts @ [\<lparr>opt_label = cog_qualified_name c, opt_value = cog_qualified_name c,
                       opt_description = cog_description c, opt_emoji = cog_emoji c\<rparr>])"

definition category_populate :: "invocation \<Rightarrow> mapping \<Rightarrow> select_option list" where
  "category_populate ctx m =
     foldl category_add_option
       [\<lparr>opt_label = ''Kurisu Categories'', opt_value = ''main'',
         opt_description = ''The index of Kurisu Categories.'', opt_emoji = bot_emoji ctx\<rparr>] m"

definition CategorySelect :: "mapping \<Rightarrow> invocation \<Rightarrow> category_select" where
  "CategorySelect m ctx =
     \<lparr>cs_placeholder = ''Select a Category.'', cs_ctx = ctx, cs_mapping = m,
      cs_options = category_populate ctx m\<rparr>"

record command_select =
  ms_placeholder :: string
  ms_ctx :: invocation
  ms_cog :: cog
  ms_commands :: "command list"
  ms_options :: "select_option list"

definition command_add_option :: "select_option list \<Rightarrow> command \<Rightarrow> select_option list" where
  "command_add_option opts c =
     opts @ [\<lparr>opt_label = name c, opt_value = qualified_name c,
               opt_description = description c, opt_emoji = None\<rparr>]"

definition command_populate :: "invocation \<Rightarrow> cog \<Rightarrow> command list \<Rightarrow> select_option list" where
  "command_populate ctx c cmds =
     foldl command_add_option
       [\<lparr>opt_label = cog_qualified_name c @ '' commands'', opt_value = ''main'',
         opt_description = cog_qualified_name c @ '' commands.'', opt_emoji = bot_emoji ctx\<rparr>] cmds"

definition CommandSelect :: "cog \<Rightarrow> command list \<Rightarrow> invocation \<Rightarrow> string \<Rightarrow> command_select" where
  "CommandSelect c cmds ctx suffix =
     \<lparr>ms_placeholder = ''Select a command'' @ suffix, ms_ctx = ctx, ms_cog = c, ms_commands = cmds,
      ms_options = command_populate ctx c cmds\<rparr>"

datatype item = Category_item category_select | Command_item command_select

section \<open>\<open>HelpView\<close>\<close>

text \<open>
  What a callback asks of the chat platform, in the order it asks: the acknowledgement of
  an interaction, a reply (with its \<open>ephemeral\<close> flag), and an edit of the message or a
  send to the channel, with the embed it shows and whether the view's controls stay
  (\<open>view=self\<close>) or go (\<open>view=None\<close>).
\<close>

datatype effect =
  Response_defer
| Response_send_message string bool
| Response_edit_message "embed option" bool
| Message_edit "embed option" bool
| Channel_send embed bool

record help_view =
  view_timeout :: nat
  paginator :: paginator
  message :: "nat option"
  author :: user
  first_page_disabled :: bool
  prev_page_disabled :: bool
  next_page_disabled :: bool
  last_page_disabled :: bool
  children :: "item list"
  stopped :: bool

text \<open>
  The result of a callback: the view as the callback leaves it, the requests it made, and
  the exception that ended it, if one did. What a callback assigned before it raised stays
  assigned.
\<close>

type_synonym outcome = "help_view \<times> effect list \<times> py_error option"

definition reset_buttons :: "help_view \<Rightarrow> help_view" where
  "reset_buttons self =
     self\<lparr>first_page_disabled := True, prev_page_disabled := True,
          next_page_disabled := False, last_page_disabled := False\<rparr>"

definition disable_buttons :: "help_view \<Rightarrow> help_view" where
  "disable_buttons self =
     self\<lparr>first_page_disabled := True, prev_page_disabled := True,
          next_page_disabled := True, last_page_disabled := True\<rparr>"

text \<open>
  The buttons are declared with \<open>disabled=True\<close> for \<open><<\<close> and \<open>Back\<close>; \<open>Next\<close>,
  \<open>>>\<close> and \<open>Exit\<close> take the toolkit's default, enabled.
\<close>

definition HelpView :: "paginator \<Rightarrow> user \<Rightarrow> help_view" where
  "HelpView pg a =
     (let self = \<lparr>view_timeout = 30, paginator = pg, message = None, author = a,
                   first_page_disabled = True, prev_page_disabled = True,
                   next_page_disabled = False, last_page_disabled = False,
                   children = [], stopped = False\<rparr>
      in if p_n_pages (paginator self) = 1 then disable_buttons self else self)"

definition add_item :: "item \<Rightarrow> help_view \<Rightarrow> help_view" where
  "add_item it self = self\<lparr>children := children self @ [it]\<rparr>"

definition on_timeout :: "help_view \<Rightarrow> outcome" where
  "on_timeout self =
     (self\<lparr>stopped := True\<rparr>, (if message self \<noteq> None then [Message_edit None False] else []), None)"

definition interaction_check :: "help_view \<Rightarrow> user \<Rightarrow> bool \<times> effect list" where
  "interaction_check self u =
     (if user_id u \<noteq> user_id (author self)
      then (False, [Response_send_message ''This view is not for you.'' True])
      else (True, []))"

text \<open>
  \<open>embed=self.paginator.current(), view=self\<close>: the page is read (and cached) first, then
  the request is made with it.
\<close>

definition show_current :: "(embed \<Rightarrow> effect) \<Rightarrow> help_view \<Rightarrow> outcome" where
  "show_current req self =
     (case p_current (paginator self) of
        Inl err \<Rightarrow> (self, [], Some err)
      | Inr (e, pg) \<Rightarrow> (self\<lparr>paginator := pg\<rparr>, [req e], None))"

definition change_paginator :: "paginator \<Rightarrow> help_view \<Rightarrow> outcome" where
  "change_paginator pg self =
     (let v1 = self\<lparr>paginator := pg\<rparr>;
          v2 = (if p_n_pages (paginator v1) > 1 then reset_buttons v1 else disable_buttons v1)
      in show_current (\<lambda>e. Message_edit (Some e) True) v2)"

definition first_page :: "help_view \<Rightarrow> outcome" where
  "first_page self =
     (let v1 = self\<lparr>first_page_disabled := True, prev_page_disabled := True,
                     next_page_disabled := False, last_page_disabled := False\<rparr>;
          v2 = v1\<lparr>paginator := p_nav (paginator v1) First\<rparr>
      in show_current (\<lambda>e. Response_edit_message (Some e) True) v2)"

definition prev_page :: "help_view \<Rightarrow> outcome" where
  "prev_page self =
     (let v1 = self\<lparr>next_page_disabled := False, last_page_disabled := False\<rparr>;
          v2 = v1\<lparr>paginator := p_nav (paginator v1) Previous\<rparr>;
          v3 = (if p_is_first (paginator v2)
                then v2\<lparr>first_page_disabled := True, prev_page_disabled := True\<rparr> else v2)
      in show_current (\<lambda>e. Response_edit_message (Some e) True) v3)"

definition next_page :: "help_view \<Rightarrow> outcome" where
  "next_page self =
     (let v1 = self\<lparr>first_page_disabled := False, prev_page_disabled := False\<rparr>;
          v2 = v1\<lparr>paginator := p_nav (paginator v1) Next\<rparr>;
          v3 = (if p_is_last (paginator v2)
                then v2\<lparr>next_page_disabled := True, last_page_disabled := True\<rparr> else v2)
      in show_current (\<lambda>e. Response_edit_message (Some e) True) v3)"

definition last_page :: "help_view \<Rightarrow> outcome" where
  "last_page self =
     (let v1 = self\<lparr>first_page_disabled := False, prev_page_disabled := False,
                     next_page_disabled := True, last_page_disabled := True\<rparr>;
          v2 = v1\<lparr>paginator := p_nav (paginator v1) Last\<rparr>
      in show_current (\<lambda>e. Response_edit_message (Some e) True) v2)"

definition remove :: "help_view \<Rightarrow> outcome" where
  "remove self = (self\<lparr>stopped := True\<rparr>, [Response_edit_message None False], None)"

text \<open>
  The callbacks of the selectors: the interaction is acknowledged, then the chosen value
  decides the paginator that replaces the view's. \<open>self.mapping[cog]\<close> raises \<open>KeyError\<close>
  when the bot knows no such category or the mapping has no entry for it; \<open>command.help\<close>
  raises \<open>AttributeError\<close> when the bot knows no such command.
\<close>

definition after_defer :: "outcome \<Rightarrow> outcome" where
  "after_defer r = (case r of (v, effs, err) \<Rightarrow> (v, Response_defer # effs, err))"

definition category_callback :: "category_select \<Rightarrow> string \<Rightarrow> help_view \<Rightarrow> outcome" where
  "category_callback sel v view =
     (if v = ''main''
      then after_defer (change_paginator
             (MainP (MainHelpPaginator (cs_mapping sel) (bot_description (cs_ctx sel)) (clean_prefix (cs_ctx sel))))
             view)
      else (case get_cog (cs_ctx sel) v of
              None \<Rightarrow> (view, [Response_defer], Some KeyError)
            | Some c \<Rightarrow>
                (case map_of (cs_mapping sel) c of
                   None \<Rightarrow> (view, [Response_defer], Some KeyError)
                 | Some cmds \<Rightarrow>
                     after_defer (change_paginator (CogP (CogHelpPaginator c cmds (clean_prefix (cs_ctx sel)))) view))))"

definition command_callback :: "command_select \<Rightarrow> string \<Rightarrow> help_view \<Rightarrow> outcome" where
  "command_callback sel v view =
     (if v = ''main''
      then after_defer (change_paginator
             (CogP (CogHelpPaginator (ms_cog sel) (ms_commands sel) (clean_prefix (ms_ctx sel)))) view)
      else (case get_command (ms_ctx sel) v of
              None \<Rightarrow> (view, [Response_defer], Some AttributeError)
            | Some c \<Rightarrow>
                after_defer (change_paginator (CommandP (CommandHelpPaginator c (clean_prefix (ms_ctx sel)))) view)))"

text \<open>
  An interaction: who made it and on which control: one of the five buttons, or the
  selector at a position among the view's items together with the value chosen there.
\<close>

datatype component =
  First_page_button | Prev_page_button | Next_page_button | Last_page_button | Remove_button
| Select_choice nat string

record interaction =
  interaction_user :: user
  interaction_component :: component

fun callback :: "component \<Rightarrow> help_view \<Rightarrow> outcome" where
  "callback First_page_button view = first_page view"
| "callback Prev_page_button view = prev_page view"
| "callback Next_page_button view = next_page view"
| "callback Last_page_button view = last_page view"
| "callback Remove_button view = remove view"
| "callback (Select_choice k v) view =
     (if k < length (children view)
      then (case children view ! k of
              Category_item sel \<Rightarrow> category_callback sel v view
            | Command_item sel \<Rightarrow> command_callback sel v view)
      else (view, [], None))"

text \<open>
  How the toolkit runs an interaction on a view: it awaits \<open>interaction_check\<close> and calls
  the control's callback only when the check returned \<open>True\<close>.
\<close>

definition dispatch :: "help_view \<Rightarrow> interaction \<Rightarrow> outcome" where
  "dispatch view i =
     (case interaction_check view (interaction_user i) of
        (False, effs) \<Rightarrow> (view, effs, None)
      | (True, effs) \<Rightarrow>
          (case callback (interaction_component i) view of
             (v, effs', err) \<Rightarrow> (v, effs @ effs', err)))"

text \<open>A sequence of interactions, each run on the view the one before left.\<close>

definition dispatch_all :: "help_view \<Rightarrow> interaction list \<Rightarrow> help_view" where
  "dispatch_all view is = foldl (\<lambda>v i. fst (dispatch v i)) view is"

section \<open>\<open>KuriHelp\<close>\<close>

text \<open>\<open>d[k] = v\<close> on a dictionary: a known key keeps its place, a new one goes last.\<close>

fun dict_set :: "('k \<times> 'v) list \<Rightarrow> 'k \<Rightarrow> 'v \<Rightarrow> ('k \<times> 'v) list" where
  "dict_set [] k v = [(k, v)]"
| "dict_set ((k', v') # d) k v = (if k' = k then (k, v) # d else (k', v') # dict_set d k v)"

text \<open>
  \<open>send_bot_help\<close>. The command framework's \<open>filter_commands\<close> (the commands the
  requester may see, sorted) is a parameter. The mapping the framework passes has the
  key \<open>None\<close> for the commands of no category.
\<close>

definition filter_step ::
  "(command list \<Rightarrow> command list) \<Rightarrow> mapping \<Rightarrow> cog option \<times> command list \<Rightarrow> mapping" where
  "filter_step filter_commands f_mapping kv =
     (case kv of
        (None, cmds) \<Rightarrow> f_mapping
      | (Some c, cmds) \<Rightarrow>
          (let f_cmds = filter_commands cmds
           in if f_cmds \<noteq> [] then dict_set f_mapping c f_cmds else f_mapping))"

definition filter_mapping ::
  "(command list \<Rightarrow> command list) \<Rightarrow> (cog option \<times> command list) list \<Rightarrow> mapping" where
  "filter_mapping filter_commands m = foldl (filter_step filter_commands) [] m"

definition send_view :: "nat \<Rightarrow> help_view \<Rightarrow> outcome" where
  "send_view msg view =
     (case show_current (\<lambda>e. Channel_send e True) view of
        (v, effs, None) \<Rightarrow> (v\<lparr>message := Some msg\<rparr>, effs, None)
      | (v, effs, Some err) \<Rightarrow> (v, effs, Some err))"

definition send_bot_help ::
  "(command list \<Rightarrow> command list) \<Rightarrow> invocation \<Rightarrow> nat \<Rightarrow> (cog option \<times> command list) list \<Rightarrow> outcome" where
  "send_bot_help filter_commands ctx msg m =
     (let f_mapping = filter_mapping filter_commands m;
          view = HelpView (MainP (MainHelpPaginator f_mapping (bot_description ctx) (ctx_prefix ctx)))
                   (ctx_author ctx);
          view = add_item (Category_item (CategorySelect f_mapping ctx)) view
      in send_view msg view)"

text \<open>
  \<open>send_cog_help\<close>. The label of a selector,
  \<open>f"[{commands[i].name[0].upper()}-{commands[i:i + SELECT_MAX_VALUES - 2][-1].name[0].upper()}]"\<close>:
  an empty name raises \<open>IndexError\<close>.
\<close>

definition select_suffix :: "command list \<Rightarrow> int \<Rightarrow> py_error + string" where
  "select_suffix cmds i =
     (case py_index cmds i of Inl err \<Rightarrow> Inl err | Inr c0 \<Rightarrow>
     (case py_index (name c0) 0 of Inl err \<Rightarrow> Inl err | Inr a \<Rightarrow>
     (case py_index (py_slice cmds i (i + SELECT_MAX_VALUES - 2)) (- 1) of Inl err \<Rightarrow> Inl err | Inr c1 \<Rightarrow>
     (case py_index (name c1) 0 of Inl err \<Rightarrow> Inl err | Inr b \<Rightarrow>
        Inr (''['' @ [upper_char a] @ ''-'' @ [upper_char b] @ '']'')))))"

fun add_selects :: "cog \<Rightarrow> command list \<Rightarrow> invocation \<Rightarrow> help_view \<Rightarrow> int list \<Rightarrow> py_error + help_view" where
  "add_selects c cmds ctx view [] = Inr view"
| "add_selects c cmds ctx view (i # is) =
     (case select_suffix cmds i of
        Inl err \<Rightarrow> Inl err
      | Inr suffix \<Rightarrow>
          add_selects c cmds ctx
            (add_item (Command_item (CommandSelect c (py_slice cmds i (i + SELECT_MAX_VALUES - 1)) ctx suffix)) view)
            is)"

definition cog_help_view ::
  "(command list \<Rightarrow> command list) \<Rightarrow> invocation \<Rightarrow> cog \<Rightarrow> command list \<Rightarrow> py_error + help_view" where
  "cog_help_view filter_commands ctx c cog_commands =
     (let cmds = filter_commands cog_commands;
          view = HelpView (CogP (CogHelpPaginator c cmds (ctx_prefix ctx))) (ctx_author ctx)
      in if int (length cmds) > SELECT_MAX_VALUES
         then add_selects c cmds ctx view (py_range 0 (int (length cmds)) (SELECT_MAX_VALUES - 1))
         else Inr (add_item (Command_item (CommandSelect c cmds ctx [])) view))"

definition send_cog_help ::
  "(command list \<Rightarrow> command list) \<Rightarrow> invocation \<Rightarrow> nat \<Rightarrow> cog \<Rightarrow> command list \<Rightarrow> py_error + outcome" where
  "send_cog_help filter_commands ctx msg c cog_commands =
     (case cog_help_view filter_commands ctx c cog_commands of
        Inl err \<Rightarrow> Inl err
      | Inr view \<Rightarrow> Inr (send_view msg view))"

text \<open>The four navigation buttons of a view: \<open><<\<close>, \<open>Back\<close>, \<open>Next\<close>, \<open>>>\<close>, each disabled or not.\<close>

definition buttons :: "help_view \<Rightarrow> bool \<times> bool \<times> bool \<times> bool" where
  "buttons v = (first_page_disabled v, prev_page_disabled v, next_page_disabled v, last_page_disabled v)"

text \<open>The field that \<open>CogHelpPaginator.create_embed\<close> adds for a command.\<close>

definition cog_field :: "command \<Rightarrow> embed_field" where
  "cog_field c =
     \<lparr>field_name = qualified_name c @ '' '' @ signature c,
      field_value = str_or (short_doc c) ''No help for you.'', field_inline = False\<rparr>"

text \<open>A category-detail paginator with its cursor at page \<open>i\<close> and the cache \<open>pgs\<close>.\<close>

definition cog_at :: "cog \<Rightarrow> command list \<Rightarrow> string \<Rightarrow> int \<Rightarrow> (int \<rightharpoonup> embed) \<Rightarrow> cog_help_paginator" where
  "cog_at c cmds pre i pgs = (CogHelpPaginator c cmds pre)\<lparr>idx := i, pages := pgs\<rparr>"


section \<open>Sample inputs\<close>

text \<open>
  Commands named \<open>a\<close>, \<open>b\<close>, ..., \<open>z\<close>, \<open>z26\<close>, \<open>z27\<close>, ... (in the order
  \<open>filter_commands(sort=True)\<close> gives them), categories, a requester and an invocation.
\<close>

definition example_name :: "nat \<Rightarrow> string" where
  "example_name k = (if k < 26 then [char_of (97 + k)] else ''z'' @ str_nat k)"

definition example_command :: "nat \<Rightarrow> command" where
  "example_command k =
     \<lparr>name = example_name k, qualified_name = example_name k, signature = ''<member>'',
      short_doc = ''Command '' @ str_nat k, cmd_help = None, aliases = [],
      cog_name = Some ''Mod'', description = []\<rparr>"

definition example_commands :: "nat \<Rightarrow> command list" where
  "example_commands n = map example_command [0..<n]"

definition example_cog :: "nat \<Rightarrow> cog" where
  "example_cog k =
     \<lparr>cog_qualified_name = ''Cog'' @ str_nat k, cog_description = ''Category '' @ str_nat k,
      cog_emoji = None\<rparr>"

definition example_user :: "nat \<Rightarrow> user" where
  "example_user k = \<lparr>user_id = k\<rparr>"

definition example_ctx :: invocation where
  "example_ctx =
     \<lparr>bot_emoji = None, bot_description = ''Kurisu'', ctx_prefix = ''.'', clean_prefix = ''.'',
      ctx_author = example_user 1, get_cog = (\<lambda>n. None), get_command = (\<lambda>n. None)\<rparr>"

text \<open>A mapping of 21 categories; the categories 0, 7 and 14 have no visible command.\<close>

definition example_mapping :: mapping where
  "example_mapping = map (\<lambda>k. (example_cog k, if k mod 7 = 0 then [] else example_commands 2)) [0..<21]"

text \<open>
  What \<open>send_bot_help\<close> keeps of an entry of the framework's mapping: the category and
  its visible commands, when it is a category and has any.
\<close>

definition visible_entry ::
  "(command list \<Rightarrow> command list) \<Rightarrow> cog option \<times> command list \<Rightarrow> mapping" where
  "visible_entry f kv =
     (case kv of (None, cmds) \<Rightarrow> [] | (Some c, cmds) \<Rightarrow> if f cmds \<noteq> [] then [(c, f cmds)] else [])"

text \<open>The placeholder and the commands of a command selector among the items of a view.\<close>

fun item_placeholder :: "item \<Rightarrow> string" where
  "item_placeholder (Category_item sel) = cs_placeholder sel"
| "item_placeholder (Command_item sel) = ms_placeholder sel"

fun item_commands :: "item \<Rightarrow> command list" where
  "item_commands (Category_item sel) = []"
| "item_commands (Command_item sel) = ms_commands sel"

text \<open>The command selectors \<open>send_cog_help\<close> puts on the view: placeholder and commands of each.\<close>

definition view_selectors :: "help_view \<Rightarrow> (string \<times> command list) list" where
  "view_selectors v = map (\<lambda>it. (item_placeholder it, item_commands it)) (children v)"

definition cog_help_selectors ::
  "(command list \<Rightarrow> command list) \<Rightarrow> invocation \<Rightarrow> cog \<Rightarrow> command list
     \<Rightarrow> py_error + (string \<times> command list) list" where
  "cog_help_selectors filter_commands ctx c cog_commands =
     (case cog_help_view filter_commands ctx c cog_commands of
        Inl err \<Rightarrow> Inl err
      | Inr v \<Rightarrow> Inr (view_selectors v))"

text \<open>
  The page \<open>current()\<close> builds at the cursor on a cache miss, and the paginator with
  that page stored under the cursor index, for the category-detail paginator
  (from \<open>self.commands[index:index + self.commands_per_page]\<close>) and for the category
  index (from \<open>self.slices[self.idx]\<close>, at a cursor from 0 up that has a slice).
\<close>

definition cog_page :: "cog_help_paginator \<Rightarrow> embed" where
  "cog_page p =
     cog_create_embed p
       (py_slice (chp_commands p) (idx p * commands_per_page) (idx p * commands_per_page + commands_per_page))"

definition cog_store :: "cog_help_paginator \<Rightarrow> cog_help_paginator" where
  "cog_store p = p\<lparr>pages := (pages p)(idx p \<mapsto> cog_page p)\<rparr>"

definition main_page :: "main_help_paginator \<Rightarrow> embed" where
  "main_page m = main_create_embed m (mhp_slices m ! nat (idx m))"

definition main_store :: "main_help_paginator \<Rightarrow> main_help_paginator" where
  "main_store m = m\<lparr>pages := (pages m)(idx m \<mapsto> main_page m)\<rparr>"

text \<open>
  A category-detail paginator over 17 commands and a category index over the sample
  mapping, as constructed; an embed of each kind with no field, to put in a cache.
\<close>

definition example_cog_paginator :: cog_help_paginator where
  "example_cog_paginator = CogHelpPaginator (example_cog 0) (example_commands 17) ''.''"

definition example_main_paginator :: main_help_paginator where
  "example_main_paginator = MainHelpPaginator example_mapping ''Kurisu'' ''.''"

definition example_cog_embed :: embed where
  "example_cog_embed = cog_create_embed example_cog_paginator []"

definition example_main_embed :: embed where
  "example_main_embed = main_create_embed example_main_paginator []"

section \<open>The page count\<close>

text \<open>The integer \<open>ceil_div\<close> is the ceiling of the quotient.\<close>

lemma ceil_div_is_ceiling: "ceil_div n d = \<lceil>real_of_int n / real_of_int d\<rceil>"
  by (simp add: ceil_div_def ceiling_divide_eq_div)

section \<open>The cursor of a paginator\<close>

lemma nav_step_range:
  "1 \<le> n_pages p \<Longrightarrow> 0 \<le> idx p \<Longrightarrow> idx p \<le> n_pages p - 1 \<Longrightarrow>
   n_pages (nav_step p a) = n_pages p \<and> 0 \<le> idx (nav_step p a) \<and> idx (nav_step p a) \<le> n_pages p - 1"
  by (cases a)
     (auto simp: paginator_previous_def paginator_next_def paginator_first_def paginator_last_def)

lemma nav_run_range:
  "1 \<le> n_pages p \<Longrightarrow> 0 \<le> idx p \<Longrightarrow> idx p \<le> n_pages p - 1 \<Longrightarrow>
   n_pages (nav_run p ops) = n_pages p \<and> 0 \<le> idx (nav_run p ops) \<and> idx (nav_run p ops) \<le> n_pages p - 1"
  unfolding nav_run_def
proof (induction ops arbitrary: p)
  case Nil
  then show ?case by simp
next
  case (Cons a ops)
  from nav_step_range [OF Cons.prems, of a] Cons.IH [of "nav_step p a"]
  show ?case by simp
qed

text \<open>
  C1. A paginator of any kind, as its constructor leaves it (cursor 0) with at least one
  page: after any finite sequence of \<open>previous\<close>/\<open>next\<close>/\<open>first\<close>/\<open>last\<close> the cursor
  is within \<open>[0, n_pages - 1]\<close>; \<open>previous\<close> at cursor 0 leaves it at 0 and \<open>next\<close> at
  the last page leaves it at the last page.
\<close>

theorem cursor_in_range:
  assumes "1 \<le> n_pages p0" and "idx p0 = 0"
  shows "0 \<le> idx (nav_run p0 ops) \<and> idx (nav_run p0 ops) \<le> n_pages p0 - 1
    \<and> n_pages (nav_run p0 ops) = n_pages p0
    \<and> (idx (nav_run p0 ops) = 0 \<longrightarrow> idx (paginator_previous (nav_run p0 ops)) = 0)
    \<and> (idx (nav_run p0 ops) = n_pages p0 - 1 \<longrightarrow>
          idx (paginator_next (nav_run p0 ops)) = n_pages p0 - 1)"
  using nav_run_range [of p0 ops] assms
  by (simp add: paginator_previous_def paginator_next_def)

theorem cursor_in_range_witness:
  "1 \<le> n_pages (BasePaginator 3) \<and> idx (BasePaginator 3) = 0
   \<and> idx (nav_run (BasePaginator 3) [Next, Next, Next, Previous, Last]) = 2
   \<and> idx (paginator_next (nav_run (BasePaginator 3) [Next, Next, Next, Previous, Last])) = 3 - 1"
proof -
  have h1: "1 \<le> n_pages (BasePaginator 3)" and h2: "idx (BasePaginator 3) = 0"
    by (simp_all add: BasePaginator_def)
  have r: "idx (nav_run (BasePaginator 3) [Next, Next, Next, Previous, Last]) = 2"
    by (simp add: BasePaginator_def nav_run_def paginator_previous_def paginator_next_def
      paginator_first_def paginator_last_def)
  from cursor_in_range [OF h1 h2, of "[Next, Next, Next, Previous, Last]"] h1 h2 r
  show ?thesis by (simp add: BasePaginator_def)
qed

text \<open>
  C9. \<open>is_first\<close> holds exactly when the cursor is 0 and \<open>is_last\<close> exactly when it is
  \<open>n_pages - 1\<close>; a paginator of one page is, after any sequence of cursor operations
  from its construction, both first and last.
\<close>

theorem boundary_predicates:
  "(is_first p \<longleftrightarrow> idx p = 0) \<and> (is_last p \<longleftrightarrow> idx p = n_pages p - 1)
   \<and> (n_pages p0 = 1 \<and> idx p0 = 0 \<longrightarrow> is_first (nav_run p0 ops) \<and> is_last (nav_run p0 ops))"
proof -
  have "is_first (nav_run p0 ops) \<and> is_last (nav_run p0 ops)" if h: "n_pages p0 = 1" "idx p0 = 0"
  proof -
    from nav_run_range [of p0 ops] h
    have "n_pages (nav_run p0 ops) = 1 \<and> idx (nav_run p0 ops) = 0" by simp
    then show ?thesis by (simp add: is_first_def is_last_def)
  qed
  moreover have "(is_first p \<longleftrightarrow> idx p = 0) \<and> (is_last p \<longleftrightarrow> idx p = n_pages p - 1)"
    by (simp add: is_first_def is_last_def)
  ultimately show ?thesis by blast
qed

theorem boundary_predicates_witness:
  "n_pages (BasePaginator 1) = 1 \<and> idx (BasePaginator 1) = 0
   \<and> is_first (nav_run (BasePaginator 1) [Next, Last, Previous, Next])
   \<and> is_last (nav_run (BasePaginator 1) [Next, Last, Previous, Next])"
proof -
  have h: "n_pages (BasePaginator 1) = 1 \<and> idx (BasePaginator 1) = 0"
    by (simp add: BasePaginator_def)
  from boundary_predicates [of "BasePaginator 1" "BasePaginator 1" "[Next, Last, Previous, Next]"] h
  show ?thesis by blast
qed

text \<open>
  C10. A category-detail paginator over an empty command list has \<open>n_pages = 0\<close>, and
  \<open>last\<close> or \<open>next\<close> sets its cursor to \<open>-1\<close>. The cursor stays within
  \<open>[0, n_pages - 1]\<close> under every sequence of cursor operations exactly when the
  paginator was constructed with at least one page.
\<close>

theorem empty_collection_cursor:
  "n_pages (CogHelpPaginator c [] pre) = 0
   \<and> idx (paginator_last (CogHelpPaginator c [] pre)) = - 1
   \<and> idx (paginator_next (CogHelpPaginator c [] pre)) = - 1
   \<and> ((\<forall>ops. 0 \<le> idx (nav_run (BasePaginator n) ops) \<and> idx (nav_run (BasePaginator n) ops) \<le> n - 1)
        \<longleftrightarrow> 1 \<le> n)"
proof -
  have a: "\<forall>ops. 0 \<le> idx (nav_run (BasePaginator n) ops) \<and> idx (nav_run (BasePaginator n) ops) \<le> n - 1"
    if "1 \<le> n"
    using nav_run_range [of "BasePaginator n"] that by (simp add: BasePaginator_def)
  have b: "1 \<le> n"
    if "\<forall>ops. 0 \<le> idx (nav_run (BasePaginator n) ops) \<and> idx (nav_run (BasePaginator n) ops) \<le> n - 1"
    using that [rule_format, of "[]"] by (simp add: nav_run_def BasePaginator_def)
  have c: "n_pages (CogHelpPaginator c [] pre) = 0"
    by (simp add: CogHelpPaginator_def ceil_div_def)
  have d: "idx (CogHelpPaginator c [] pre) = 0"
    by (simp add: CogHelpPaginator_def)
  have e: "idx (paginator_last (CogHelpPaginator c [] pre)) = - 1"
    using c by (simp add: paginator_last_def)
  have f: "idx (paginator_next (CogHelpPaginator c [] pre)) = - 1"
    using c d by (simp add: paginator_next_def)
  from a b c e f show ?thesis by blast
qed

section \<open>The buttons of a view\<close>

lemma show_current_buttons:
  "first_page_disabled (fst (show_current req v)) = first_page_disabled v
   \<and> prev_page_disabled (fst (show_current req v)) = prev_page_disabled v
   \<and> next_page_disabled (fst (show_current req v)) = next_page_disabled v
   \<and> last_page_disabled (fst (show_current req v)) = last_page_disabled v"
  by (simp add: show_current_def split: sum.splits prod.splits)

lemma change_paginator_many:
  "1 < p_n_pages pg \<Longrightarrow>
     first_page_disabled (fst (change_paginator pg view)) \<and> prev_page_disabled (fst (change_paginator pg view))
     \<and> \<not> next_page_disabled (fst (change_paginator pg view)) \<and> \<not> last_page_disabled (fst (change_paginator pg view))"
  by (simp add: change_paginator_def Let_def show_current_buttons reset_buttons_def)

lemma change_paginator_few:
  "\<not> 1 < p_n_pages pg \<Longrightarrow>
     first_page_disabled (fst (change_paginator pg view)) \<and> prev_page_disabled (fst (change_paginator pg view))
     \<and> next_page_disabled (fst (change_paginator pg view)) \<and> last_page_disabled (fst (change_paginator pg view))"
  by (simp add: change_paginator_def Let_def show_current_buttons disable_buttons_def)

text \<open>
  C6. \<open>change_paginator\<close> sets the buttons from the new paginator alone: with more than
  one page \<open><<\<close> and \<open>Back\<close> are disabled and \<open>Next\<close> and \<open>>>\<close> enabled, with exactly
  one page all four are disabled, whatever the view was before.
\<close>

theorem change_paginator_buttons:
  "(1 < p_n_pages pg \<longrightarrow> buttons (fst (change_paginator pg view)) = (True, True, False, False))
   \<and> (p_n_pages pg = 1 \<longrightarrow> buttons (fst (change_paginator pg view)) = (True, True, True, True))
   \<and> buttons (fst (change_paginator pg view)) = buttons (fst (change_paginator pg view'))"
  using change_paginator_many [of pg view] change_paginator_few [of pg view]
    change_paginator_many [of pg view'] change_paginator_few [of pg view']
  by (cases "1 < p_n_pages pg") (simp_all add: buttons_def)

theorem change_paginator_buttons_witness:
  "buttons (fst (change_paginator (CogP (CogHelpPaginator (example_cog 0) (example_commands 17) ''.''))
       (HelpView (CommandP (CommandHelpPaginator (example_command 0) ''.'')) (example_user 1))))
     = (True, True, False, False)
   \<and> buttons (fst (change_paginator (CommandP (CommandHelpPaginator (example_command 0) ''.''))
       (HelpView (CogP (CogHelpPaginator (example_cog 0) (example_commands 17) ''.'')) (example_user 1))))
     = (True, True, True, True)"
proof -
  have a: "p_n_pages (CommandP (CommandHelpPaginator (example_command 0) ''.'')) = 1"
    by (simp add: CommandHelpPaginator_def)
  have b: "1 < p_n_pages (CogP (CogHelpPaginator (example_cog 0) (example_commands 17) ''.''))"
    by (simp add: CogHelpPaginator_def example_commands_def ceil_div_def commands_per_page_def)
  from a b
    change_paginator_buttons [of "CogP (CogHelpPaginator (example_cog 0) (example_commands 17) ''.'')"
      "HelpView (CommandP (CommandHelpPaginator (example_command 0) ''.'')) (example_user 1)"
      "HelpView (CommandP (CommandHelpPaginator (example_command 0) ''.'')) (example_user 1)"]
    change_paginator_buttons [of "CommandP (CommandHelpPaginator (example_command 0) ''.'')"
      "HelpView (CogP (CogHelpPaginator (example_cog 0) (example_commands 17) ''.'')) (example_user 1)"
      "HelpView (CogP (CogHelpPaginator (example_cog 0) (example_commands 17) ''.'')) (example_user 1)"]
  show ?thesis by blast
qed

text \<open>
  C7. A view constructed with a paginator of exactly one page has all four navigation
  buttons disabled; with a paginator of more than one page \<open><<\<close> and \<open>Back\<close> are
  disabled and \<open>Next\<close> and \<open>>>\<close> enabled.
\<close>

theorem construction_buttons:
  "(p_n_pages pg = 1 \<longrightarrow> buttons (HelpView pg a) = (True, True, True, True))
   \<and> (1 < p_n_pages pg \<longrightarrow> buttons (HelpView pg a) = (True, True, False, False))"
  by (simp add: HelpView_def Let_def buttons_def disable_buttons_def)

theorem construction_buttons_witness:
  "buttons (HelpView (CommandP (CommandHelpPaginator (example_command 0) ''.'')) (example_user 1))
     = (True, True, True, True)
   \<and> buttons (HelpView (CogP (CogHelpPaginator (example_cog 0) (example_commands 17) ''.'')) (example_user 1))
     = (True, True, False, False)"
proof -
  have a: "p_n_pages (CommandP (CommandHelpPaginator (example_command 0) ''.'')) = 1"
    by (simp add: CommandHelpPaginator_def)
  have b: "1 < p_n_pages (CogP (CogHelpPaginator (example_cog 0) (example_commands 17) ''.''))"
    by (simp add: CogHelpPaginator_def example_commands_def ceil_div_def commands_per_page_def)
  from a b
    construction_buttons [of "CommandP (CommandHelpPaginator (example_command 0) ''.'')" "example_user 1"]
    construction_buttons [of "CogP (CogHelpPaginator (example_cog 0) (example_commands 17) ''.'')" "example_user 1"]
  show ?thesis by blast
qed

section \<open>Interactions of another user\<close>

lemma dispatch_foreign:
  "user_id (interaction_user i) \<noteq> user_id (author view) \<Longrightarrow>
   dispatch view i = (view, [Response_send_message ''This view is not for you.'' True], None)"
  by (simp add: dispatch_def interaction_check_def)

lemma dispatch_all_foreign:
  "\<forall>i\<in>set is. user_id (interaction_user i) \<noteq> user_id (author view) \<Longrightarrow> dispatch_all view is = view"
  unfolding dispatch_all_def
  by (induction "is") (simp_all add: dispatch_foreign)

text \<open>
  C5. Interactions whose user is not the author of the view, any number of them on any
  controls: each is answered with the ephemeral notice and nothing else, its callback is
  not run, and the view (cursor, paginator, buttons, items, message) is what it was.
\<close>

theorem foreign_interactions_rejected:
  assumes "\<forall>i\<in>set is. user_id (interaction_user i) \<noteq> user_id (author view)"
  shows "dispatch_all view is = view
    \<and> (\<forall>i\<in>set is.
          interaction_check view (interaction_user i)
            = (False, [Response_send_message ''This view is not for you.'' True])
          \<and> dispatch view i = (view, [Response_send_message ''This view is not for you.'' True], None))"
  using assms dispatch_all_foreign [of "is" view]
  by (simp add: dispatch_foreign interaction_check_def)

theorem foreign_interactions_rejected_witness:
  "dispatch_all (HelpView (CogP (CogHelpPaginator (example_cog 0) (example_commands 17) ''.'')) (example_user 1))
     [\<lparr>interaction_user = example_user 2, interaction_component = Next_page_button\<rparr>,
      \<lparr>interaction_user = example_user 3, interaction_component = Last_page_button\<rparr>,
      \<lparr>interaction_user = example_user 2, interaction_component = Select_choice 0 ''main''\<rparr>,
      \<lparr>interaction_user = example_user 2, interaction_component = Remove_button\<rparr>]
   = HelpView (CogP (CogHelpPaginator (example_cog 0) (example_commands 17) ''.'')) (example_user 1)"
proof -
  have a: "author (HelpView pg u) = u" for pg u
    by (simp add: HelpView_def Let_def disable_buttons_def)
  have "\<forall>i\<in>set [\<lparr>interaction_user = example_user 2, interaction_component = Next_page_button\<rparr>,
      \<lparr>interaction_user = example_user 3, interaction_component = Last_page_button\<rparr>,
      \<lparr>interaction_user = example_user 2, interaction_component = Select_choice 0 ''main''\<rparr>,
      \<lparr>interaction_user = example_user 2, interaction_component = Remove_button\<rparr>].
      user_id (interaction_user i) \<noteq> user_id (author (HelpView (CogP (CogHelpPaginator (example_cog 0) (example_commands 17) ''.'')) (example_user 1)))"
    by (simp add: a example_user_def)
  from foreign_interactions_rejected [OF this] show ?thesis by blast
qed

text \<open>The same button pressed by the author does move the cursor.\<close>

lemma author_interaction_accepted:
  "fst (dispatch (HelpView (CogP (CogHelpPaginator (example_cog 0) (example_commands 17) ''.'')) (example_user 1))
   \<lparr>interaction_user = example_user 1, interaction_component = Next_page_button\<rparr>) \<noteq> 
   HelpView (CogP (CogHelpPaginator (example_cog 0) (example_commands 17) ''.'')) (example_user 1)"
  by (simp add: dispatch_def interaction_check_def HelpView_def Let_def disable_buttons_def next_page_def show_current_def
    CogHelpPaginator_def ceil_div_def commands_per_page_def example_commands_def paginator_next_def is_last_def cog_current_def cache_get_def
    split: prod.splits sum.splits)

section \<open>The pages of a category-detail paginator\<close>

lemma foldl_cog_add_command:
  "embed_fields (foldl cog_add_command e cs) = embed_fields e @ map cog_field cs"
  by (induction cs arbitrary: e) (simp_all add: cog_add_command_def add_field_def cog_field_def)

lemma cog_create_embed_fields: "embed_fields (cog_create_embed self cs) = map cog_field cs"
  by (simp add: cog_create_embed_def Let_def set_footer_def foldl_cog_add_command)

lemma cog_current_miss:
  "pages self (idx self) = None \<Longrightarrow>
   fst (cog_current self)
     = cog_create_embed self (py_slice (chp_commands self) (idx self * 8) (idx self * 8 + 8))"
  by (simp add: cog_current_def cache_get_def Let_def commands_per_page_def)

lemma slices_17:
  assumes "length (cmds :: 'a list) = 17"
  shows "py_slice cmds 0 8 = take 8 cmds" and "py_slice cmds 8 16 = take 8 (drop 8 cmds)"
    and "py_slice cmds 16 24 = py_slice cmds 16 17" and "py_slice cmds 16 17 = [cmds ! 16]"
proof -
  show "py_slice cmds 0 8 = take 8 cmds" "py_slice cmds 8 16 = take 8 (drop 8 cmds)"
    "py_slice cmds 16 24 = py_slice cmds 16 17"
    using assms by (simp_all add: py_slice_def)
  have "drop 16 cmds = [cmds ! 16]"
    using assms by (metis Cons_nth_drop_Suc drop_all lessI numeral_eq_Suc order_refl pred_numeral_simps(3) semiring_norm(26,27))
  then show "py_slice cmds 16 17 = [cmds ! 16]"
    using assms by (simp add: py_slice_def)
qed

text \<open>
  C8. A category-detail paginator over 17 commands has 3 pages, and the page at cursor
  \<open>i\<close>, on its first visit, is built from the slice \<open>commands[8*i : 8*i+8]\<close>: one
  field for each command of \<open>commands[0:8]\<close>, \<open>commands[8:16]\<close>, \<open>commands[16:17]\<close>.
\<close>

theorem cog_pages_17:
  assumes "length cmds = 17" and "i \<in> {0, 1, 2}" and "pgs i = None"
  shows "n_pages (CogHelpPaginator c cmds pre) = 3
    \<and> fst (cog_current (cog_at c cmds pre i pgs))
        = cog_create_embed (cog_at c cmds pre i pgs) (py_slice cmds (8 * i) (8 * i + 8))
    \<and> embed_fields (fst (cog_current (cog_at c cmds pre i pgs)))
        = map cog_field (py_slice cmds (8 * i) (8 * i + 8))
    \<and> py_slice cmds 0 8 = take 8 cmds
    \<and> py_slice cmds 8 16 = take 8 (drop 8 cmds)
    \<and> py_slice cmds 16 24 = py_slice cmds 16 17 \<and> py_slice cmds 16 17 = [cmds ! 16]"
proof -
  have n: "n_pages (CogHelpPaginator c cmds pre) = 3"
    using assms(1) by (simp add: CogHelpPaginator_def ceil_div_def commands_per_page_def)
  have "pages (cog_at c cmds pre i pgs) (idx (cog_at c cmds pre i pgs)) = None"
    using assms(3) by (simp add: cog_at_def)
  from cog_current_miss [OF this]
  have cur: "fst (cog_current (cog_at c cmds pre i pgs))
        = cog_create_embed (cog_at c cmds pre i pgs) (py_slice cmds (8 * i) (8 * i + 8))"
    by (simp add: cog_at_def CogHelpPaginator_def mult.commute)
  from n cur slices_17 [OF assms(1)] show ?thesis
    by (simp add: cog_create_embed_fields)
qed

theorem cog_pages_17_witness:
  "fst (cog_current (cog_at (example_cog 0) (example_commands 17) ''.'' 2 Map.empty))
     = cog_create_embed (cog_at (example_cog 0) (example_commands 17) ''.'' 2 Map.empty)
         [example_command 16]"
proof -
  have a: "length (example_commands 17) = 17" by (simp add: example_commands_def)
  have b: "(2::int) \<in> {0, 1, 2}" by simp
  have c: "(Map.empty :: int \<rightharpoonup> embed) 2 = None" by simp
  have d: "example_commands 17 ! 16 = example_command 16" by (simp add: example_commands_def)
  from cog_pages_17 [of "example_commands 17" 2 Map.empty "example_cog 0" "''.''", OF a b c] d
  show ?thesis by simp
qed

section \<open>The pages of the category index\<close>

lemma foldl_slice_step:
  "foldl slice_step (it, sl) is
     = (drop (9 * length is) it, sl @ map (\<lambda>j. take 9 (drop (9 * j) it)) [0..<length is])"
proof (induction "is" arbitrary: it sl)
  case Nil
  then show ?case by simp
next
  case (Cons i "is")
  have "map (\<lambda>j. take 9 (drop (9 * j) it)) [0..<Suc (length is)]
          = take 9 it # map (\<lambda>j. take 9 (drop (9 * j) (drop 9 it))) [0..<length is]"
    by (simp only: map_upt_Suc) (simp add: add.commute)
  with Cons.IH [of "drop 9 it" "sl @ [take 9 it]"] show ?case
    by (simp add: slice_step_def categories_per_page_def add.commute)
qed

lemma ceil_div_9: "0 \<le> n \<Longrightarrow> (n + 9 - 1) div 9 = ceil_div n 9"
  unfolding ceil_div_def by presburger

lemma main_slices:
  "mhp_slices (MainHelpPaginator m d pre)
     = map (\<lambda>j. take 9 (drop (9 * j) m)) [0..<nat (n_pages (MainHelpPaginator m d pre))]"
  using ceil_div_9 [of "int (length m)"]
  by (simp add: MainHelpPaginator_def foldl_slice_step py_range_def categories_per_page_def)



lemma example_mapping_length: "length example_mapping = 21"
  by (simp add: example_mapping_def)




text \<open>
  \<open>send_bot_help\<close> builds the category index over the filtered mapping: the categories
  (of distinct keys) whose filtered command list is not empty, in order. So the index it
  shows has \<open>ceil(k/9)\<close> pages for the \<open>k\<close> categories with a visible command.
\<close>

lemma dict_set_new: "k \<notin> fst ` set d \<Longrightarrow> dict_set d k v = d @ [(k, v)]"
  by (induction d) auto

lemma filter_step_new:
  "\<forall>c. k = Some c \<longrightarrow> c \<notin> fst ` set acc \<Longrightarrow>
   filter_step f acc (k, cmds) = acc @ visible_entry f (k, cmds)"
  by (cases k) (simp_all add: filter_step_def visible_entry_def Let_def dict_set_new)

lemma visible_entry_keys:
  "c \<in> fst ` set (visible_entry f (k, cmds)) \<Longrightarrow> k = Some c"
  by (cases k) (auto simp: visible_entry_def split: if_splits)

lemma foldl_filter_step:
  "distinct (map fst m) \<Longrightarrow> \<forall>c. Some c \<in> fst ` set m \<longrightarrow> c \<notin> fst ` set acc \<Longrightarrow>
   foldl (filter_step f) acc m = acc @ concat (map (visible_entry f) m)"
proof (induction m arbitrary: acc)
  case Nil
  then show ?case by simp
next
  case (Cons kv m)
  obtain k cmds where kv: "kv = (k, cmds)" by (cases kv)
  from Cons.prems(2) kv have "\<forall>c. k = Some c \<longrightarrow> c \<notin> fst ` set acc" by simp
  then have step: "filter_step f acc kv = acc @ visible_entry f kv"
    unfolding kv by (rule filter_step_new)
  have "\<forall>c. Some c \<in> fst ` set m \<longrightarrow> c \<notin> fst ` set (acc @ visible_entry f kv)"
  proof (intro allI impI)
    fix c assume c: "Some c \<in> fst ` set m"
    with Cons.prems(2) have "c \<notin> fst ` set acc" by simp
    moreover have "c \<notin> fst ` set (visible_entry f kv)"
    proof
      assume "c \<in> fst ` set (visible_entry f kv)"
      then have "k = Some c" unfolding kv by (rule visible_entry_keys)
      with Cons.prems(1) kv c show False by simp
    qed
    ultimately show "c \<notin> fst ` set (acc @ visible_entry f kv)" by (simp add: image_Un)
  qed
  moreover from Cons.prems(1) have "distinct (map fst m)" by simp
  ultimately have "foldl (filter_step f) (acc @ visible_entry f kv) m
      = (acc @ visible_entry f kv) @ concat (map (visible_entry f) m)"
    by (rule Cons.IH [rotated])
  with step show ?case by simp
qed

lemma filter_mapping_distinct:
  "distinct (map fst m) \<Longrightarrow> filter_mapping f m = concat (map (visible_entry f) m)"
  using foldl_filter_step [of m "[]" f] by (simp add: filter_mapping_def)

lemma length_visible:
  "length (concat (map (visible_entry f) m))
     = length (filter (\<lambda>kv. fst kv \<noteq> None \<and> f (snd kv) \<noteq> []) m)"
  by (induction m) (auto simp: visible_entry_def split: option.splits)

lemma p_current_n_pages: "p_current pg = Inr (e, pg') \<Longrightarrow> p_n_pages pg' = p_n_pages pg"
proof (cases pg)
  case (MainP p)
  assume "p_current pg = Inr (e, pg')"
  with MainP show ?thesis
    by (auto simp: main_current_def Let_def split: sum.splits option.splits)
next
  case (CogP p)
  assume "p_current pg = Inr (e, pg')"
  with CogP show ?thesis
    by (auto simp: cog_current_def Let_def split: option.splits)
next
  case (CommandP p)
  assume "p_current pg = Inr (e, pg')"
  with CommandP show ?thesis
    by (auto simp: command_current_def)
qed

lemma show_current_n_pages:
  "p_n_pages (paginator (fst (show_current req v))) = p_n_pages (paginator v)"
proof (cases "p_current (paginator v)")
  case (Inl err)
  then show ?thesis by (simp add: show_current_def)
next
  case (Inr r)
  obtain e pg' where r: "r = (e, pg')" by (cases r)
  with Inr p_current_n_pages [of "paginator v" e pg'] show ?thesis
    by (simp add: show_current_def)
qed

lemma send_view_n_pages:
  "p_n_pages (paginator (fst (send_view msg v))) = p_n_pages (paginator v)"
proof -
  obtain v' effs err where r: "show_current (\<lambda>e. Channel_send e True) v = (v', effs, err)"
    by (cases "show_current (\<lambda>e. Channel_send e True) v") auto
  with show_current_n_pages [of "\<lambda>e. Channel_send e True" v]
  have "p_n_pages (paginator v') = p_n_pages (paginator v)" by simp
  with r show ?thesis by (cases err) (simp_all add: send_view_def)
qed

lemma send_bot_help_pages:
  assumes "distinct (map fst m)"
  shows "p_n_pages (paginator (fst (send_bot_help f ctx msg m)))
           = ceil_div (int (length (filter (\<lambda>kv. fst kv \<noteq> None \<and> f (snd kv) \<noteq> []) m))) 9"
proof -
  have "paginator (add_item it (HelpView pg a)) = pg" for it pg a
    by (simp add: add_item_def HelpView_def Let_def disable_buttons_def)
  then show ?thesis
    using filter_mapping_distinct [OF assms, of f] length_visible [of f m]
    by (simp add: send_bot_help_def Let_def send_view_n_pages MainHelpPaginator_def
        categories_per_page_def)
qed

section \<open>The page cache\<close>

lemma cog_create_embed_true: "embed_bool (cog_create_embed self cs)"
  by (simp add: cog_create_embed_def Let_def set_footer_def embed_bool_def)

lemma foldl_main_add_category_colour:
  "embed_colour (foldl main_add_category e m) = embed_colour e"
  by (induction m arbitrary: e) (auto simp: main_add_category_def add_field_def)

lemma main_create_embed_true: "embed_bool (main_create_embed self m)"
  by (simp add: main_create_embed_def Let_def set_footer_def embed_bool_def
      foldl_main_add_category_colour)

text \<open>
  C4, as stated, fails for the single-command paginator: its \<open>current()\<close> builds the
  embed on every call and stores nothing; after the first call the cache has no page 0.
\<close>

theorem command_page_not_cached:
  "pages (snd (command_current (CommandHelpPaginator (example_command 0) ''.''))) 0
     \<noteq> Some (fst (command_current (CommandHelpPaginator (example_command 0) ''.'')))"
  by (simp add: command_current_def CommandHelpPaginator_def)

lemma cog_current_hit: "cache_get (pages p) (idx p) = Some e \<Longrightarrow> cog_current p = (e, p)"
  by (simp add: cog_current_def)

lemma cog_current_store:
  "cache_get (pages p) (idx p) = None \<Longrightarrow> cog_current p = (cog_page p, cog_store p)"
  by (simp add: cog_current_def Let_def cog_page_def cog_store_def)

lemma cog_store_hit: "cache_get (pages (cog_store p)) (idx (cog_store p)) = Some (cog_page p)"
  by (simp add: cog_store_def cache_get_def cog_page_def cog_create_embed_true)

lemma main_current_hit: "cache_get (pages m) (idx m) = Some e \<Longrightarrow> main_current m = Inr (e, m)"
  by (simp add: main_current_def)

lemma main_current_store:
  assumes "cache_get (pages m) (idx m) = None" and "0 \<le> idx m"
    and "idx m < int (length (mhp_slices m))"
  shows "main_current m = Inr (main_page m, main_store m)"
proof -
  from assms(2,3) have "py_index (mhp_slices m) (idx m) = Inr (mhp_slices m ! nat (idx m))"
    by (simp add: py_index_def)
  with assms(1) show ?thesis
    by (simp add: main_current_def Let_def main_page_def main_store_def)
qed

lemma main_store_hit: "cache_get (pages (main_store m)) (idx (main_store m)) = Some (main_page m)"
  by (simp add: main_store_def cache_get_def main_page_def main_create_embed_true)

lemma main_current_empty: "main_current (MainHelpPaginator [] d pre) = Inl IndexError"
  by (simp add: main_current_def MainHelpPaginator_def cache_get_def py_index_def py_range_def
      categories_per_page_def)

lemma nav_step_slices: "mhp_slices (nav_step p a) = mhp_slices p"
  by (cases a)
     (simp_all add: paginator_previous_def paginator_next_def paginator_first_def paginator_last_def)

lemma nav_run_slices: "mhp_slices (nav_run p ops) = mhp_slices p"
  unfolding nav_run_def
  by (induction ops arbitrary: p) (simp_all add: nav_step_slices)

lemma main_cursor_has_slice:
  assumes "m \<noteq> []"
  shows "0 \<le> idx (nav_run (MainHelpPaginator m d pre) ops)
    \<and> idx (nav_run (MainHelpPaginator m d pre) ops)
        < int (length (mhp_slices (nav_run (MainHelpPaginator m d pre) ops)))"
proof -
  from assms have "0 < int (length m)" by simp
  then have "1 \<le> ceil_div (int (length m)) 9"
    unfolding ceil_div_def by presburger
  then have n: "1 \<le> n_pages (MainHelpPaginator m d pre)"
    by (simp add: MainHelpPaginator_def categories_per_page_def)
  have i: "idx (MainHelpPaginator m d pre) = 0" by (simp add: MainHelpPaginator_def)
  from n have "int (length (mhp_slices (MainHelpPaginator m d pre))) = n_pages (MainHelpPaginator m d pre)"
    by (simp add: main_slices)
  with nav_run_range [of "MainHelpPaginator m d pre" ops] n i nav_run_slices [of "MainHelpPaginator m d pre" ops]
  show ?thesis by simp
qed

text \<open>
  C4, amended. For the category-detail and the category-index paginator: when the cache
  holds a page for the cursor, \<open>current()\<close> returns that cached embed, whatever it is,
  and changes nothing; when it holds none, \<open>current()\<close> builds the page from the
  cursor's slice, stores it under the cursor index and returns it, and a second call at
  the same cursor returns the stored embed and changes nothing. For the category index
  the build needs the cursor to have a slice: every cursor reached by
  \<open>previous\<close>/\<open>next\<close>/\<open>first\<close>/\<open>last\<close> from the construction over a non-empty
  mapping has one, and over an empty mapping \<open>current()\<close> raises \<open>IndexError\<close>. The
  single-command paginator has no cache: every \<open>current()\<close> builds the embed of its
  command anew, the same each time, and leaves the paginator as it was.
\<close>

theorem current_cached:
  "(cache_get (pages p) (idx p) = Some e \<longrightarrow> cog_current p = (e, p))
   \<and> (cache_get (pages p) (idx p) = None \<longrightarrow>
        cog_current p = (cog_page p, cog_store p)
        \<and> pages (cog_store p) (idx p) = Some (cog_page p)
        \<and> cog_current (cog_store p) = (cog_page p, cog_store p))
   \<and> (cache_get (pages m) (idx m) = Some e' \<longrightarrow> main_current m = Inr (e', m))
   \<and> (cache_get (pages m) (idx m) = None \<and> 0 \<le> idx m \<and> idx m < int (length (mhp_slices m)) \<longrightarrow>
        main_current m = Inr (main_page m, main_store m)
        \<and> pages (main_store m) (idx m) = Some (main_page m)
        \<and> main_current (main_store m) = Inr (main_page m, main_store m))
   \<and> (m0 \<noteq> [] \<longrightarrow>
        0 \<le> idx (nav_run (MainHelpPaginator m0 d pre) ops)
        \<and> idx (nav_run (MainHelpPaginator m0 d pre) ops)
            < int (length (mhp_slices (nav_run (MainHelpPaginator m0 d pre) ops))))
   \<and> main_current (MainHelpPaginator [] d pre) = Inl IndexError
   \<and> command_current k = (command_create_embed k (cmd_command k), k)"
proof -
  have c1: "cog_current (cog_store p) = (cog_page p, cog_store p)"
    using cog_store_hit [of p] by (rule cog_current_hit)
  have c2: "pages (cog_store p) (idx p) = Some (cog_page p)"
    by (simp add: cog_store_def)
  have m1: "main_current (main_store m) = Inr (main_page m, main_store m)"
    using main_store_hit [of m] by (rule main_current_hit)
  have m2: "pages (main_store m) (idx m) = Some (main_page m)"
    by (simp add: main_store_def)
  have k: "command_current k = (command_create_embed k (cmd_command k), k)"
    by (simp add: command_current_def)
  from c1 c2 m1 m2 k cog_current_hit [of p e] cog_current_store [of p] main_current_hit [of m e']
    main_current_store [of m] main_cursor_has_slice [of m0 d pre ops] main_current_empty [of d pre]
  show ?thesis by blast
qed

theorem current_cached_witness:
  "cog_current (example_cog_paginator\<lparr>pages := [0 \<mapsto> example_cog_embed]\<rparr>)
     = (example_cog_embed, example_cog_paginator\<lparr>pages := [0 \<mapsto> example_cog_embed]\<rparr>)
   \<and> cog_current example_cog_paginator = (cog_page example_cog_paginator, cog_store example_cog_paginator)
   \<and> cog_current (cog_store example_cog_paginator)
       = (cog_page example_cog_paginator, cog_store example_cog_paginator)
   \<and> main_current (example_main_paginator\<lparr>pages := [0 \<mapsto> example_main_embed]\<rparr>)
       = Inr (example_main_embed, example_main_paginator\<lparr>pages := [0 \<mapsto> example_main_embed]\<rparr>)
   \<and> main_current example_main_paginator
       = Inr (main_page example_main_paginator, main_store example_main_paginator)
   \<and> main_current (main_store example_main_paginator)
       = Inr (main_page example_main_paginator, main_store example_main_paginator)
   \<and> idx (nav_run example_main_paginator [Next, Next, Next])
       < int (length (mhp_slices (nav_run example_main_paginator [Next, Next, Next])))"
proof -
  have ci: "idx example_cog_paginator = 0" and cp: "pages example_cog_paginator = Map.empty"
    by (simp_all add: example_cog_paginator_def CogHelpPaginator_def)
  have mi: "idx example_main_paginator = 0" and mp: "pages example_main_paginator = Map.empty"
    by (simp_all add: example_main_paginator_def MainHelpPaginator_def)
  have h1: "cache_get (pages (example_cog_paginator\<lparr>pages := [0 \<mapsto> example_cog_embed]\<rparr>))
         (idx (example_cog_paginator\<lparr>pages := [0 \<mapsto> example_cog_embed]\<rparr>)) = Some example_cog_embed"
    by (simp add: ci cache_get_def example_cog_embed_def cog_create_embed_true)
  have h2: "cache_get (pages example_cog_paginator) (idx example_cog_paginator) = None"
    by (simp add: ci cp cache_get_def)
  have h3: "cache_get (pages (example_main_paginator\<lparr>pages := [0 \<mapsto> example_main_embed]\<rparr>))
         (idx (example_main_paginator\<lparr>pages := [0 \<mapsto> example_main_embed]\<rparr>)) = Some example_main_embed"
    by (simp add: mi cache_get_def example_main_embed_def main_create_embed_true)
  have "n_pages example_main_paginator = 3"
    by (simp add: example_main_paginator_def example_mapping_length MainHelpPaginator_def
        ceil_div_def categories_per_page_def)
  with main_slices [of example_mapping "''Kurisu''" "''.''"]
  have "length (mhp_slices example_main_paginator) = 3"
    by (simp add: example_main_paginator_def)
  with mi mp have h4: "cache_get (pages example_main_paginator) (idx example_main_paginator) = None
      \<and> 0 \<le> idx example_main_paginator
      \<and> idx example_main_paginator < int (length (mhp_slices example_main_paginator))"
    by (simp add: cache_get_def)
  have h5: "example_mapping \<noteq> []"
    using example_mapping_length by auto
  from h1 current_cached [of "example_cog_paginator\<lparr>pages := [0 \<mapsto> example_cog_embed]\<rparr>"
      example_cog_embed]
  have w1: "cog_current (example_cog_paginator\<lparr>pages := [0 \<mapsto> example_cog_embed]\<rparr>)
     = (example_cog_embed, example_cog_paginator\<lparr>pages := [0 \<mapsto> example_cog_embed]\<rparr>)"
    by blast
  from h2 current_cached [of example_cog_paginator]
  have w2: "cog_current example_cog_paginator = (cog_page example_cog_paginator, cog_store example_cog_paginator)
     \<and> cog_current (cog_store example_cog_paginator)
       = (cog_page example_cog_paginator, cog_store example_cog_paginator)"
    by blast
  from h3 current_cached [of _ _ "example_main_paginator\<lparr>pages := [0 \<mapsto> example_main_embed]\<rparr>"
      example_main_embed]
  have w3: "main_current (example_main_paginator\<lparr>pages := [0 \<mapsto> example_main_embed]\<rparr>)
       = Inr (example_main_embed, example_main_paginator\<lparr>pages := [0 \<mapsto> example_main_embed]\<rparr>)"
    by blast
  from h4 current_cached [of _ _ example_main_paginator]
  have w4: "main_current example_main_paginator
       = Inr (main_page example_main_paginator, main_store example_main_paginator)
     \<and> main_current (main_store example_main_paginator)
       = Inr (main_page example_main_paginator, main_store example_main_paginator)"
    by blast
  from h5 current_cached [of _ _ _ _ example_mapping "''Kurisu''" "''.''" "[Next, Next, Next]"]
  have w5: "idx (nav_run example_main_paginator [Next, Next, Next])
       < int (length (mhp_slices (nav_run example_main_paginator [Next, Next, Next])))"
    unfolding example_main_paginator_def by blast
  from w1 w2 w3 w4 w5 show ?thesis by blast
qed

text \<open>
  The embed put in the cache above is not the page the paginator would build (it has no
  field, the page has eight): the first equation of the witness is a read of the cache.
\<close>

lemma example_cog_embed_stale:
  "embed_fields example_cog_embed = []
   \<and> length (embed_fields (cog_page example_cog_paginator)) = 8"
  by (simp add: example_cog_embed_def cog_page_def cog_create_embed_fields example_cog_paginator_def
      CogHelpPaginator_def py_slice_def commands_per_page_def example_commands_def)


section \<open>The command selectors of a large category\<close>

lemma range_40: "py_range 0 40 (SELECT_MAX_VALUES - 1) = [0, 24]"
  by (simp add: py_range_def SELECT_MAX_VALUES_def upt_rec)

lemma select_suffix_40:
  assumes "length cmds = 40" and "\<forall>c\<in>set cmds. name c \<noteq> []"
  shows "select_suffix cmds 0
           = Inr (''['' @ [upper_char (hd (name (cmds ! 0)))] @ ''-'' @ [upper_char (hd (name (cmds ! 22)))] @ '']'')"
    and "select_suffix cmds 24
           = Inr (''['' @ [upper_char (hd (name (cmds ! 24)))] @ ''-'' @ [upper_char (hd (name (cmds ! 39)))] @ '']'')"
proof -
  have first: "py_index (name c) 0 = Inr (hd (name c))" if "c \<in> set cmds" for c
    using assms(2) that by (cases "name c") (auto simp: py_index_def)
  have mem: "cmds ! k \<in> set cmds" if "k < 40" for k
    using assms(1) that by simp
  have a: "py_index cmds 0 = Inr (cmds ! 0)" "py_index cmds 24 = Inr (cmds ! 24)"
    using assms(1) by (simp_all add: py_index_def)
  have b: "py_index (py_slice cmds 0 (0 + SELECT_MAX_VALUES - 2)) (- 1) = Inr (cmds ! 22)"
    using assms(1) by (simp add: py_index_def py_slice_def SELECT_MAX_VALUES_def)
  have c: "py_index (py_slice cmds 24 (24 + SELECT_MAX_VALUES - 2)) (- 1) = Inr (cmds ! 39)"
    using assms(1) by (simp add: py_index_def py_slice_def SELECT_MAX_VALUES_def)
  show "select_suffix cmds 0
           = Inr (''['' @ [upper_char (hd (name (cmds ! 0)))] @ ''-'' @ [upper_char (hd (name (cmds ! 22)))] @ '']'')"
    using a b first [OF mem [of 0]] first [OF mem [of 22]] by (simp add: select_suffix_def)
  show "select_suffix cmds 24
           = Inr (''['' @ [upper_char (hd (name (cmds ! 24)))] @ ''-'' @ [upper_char (hd (name (cmds ! 39)))] @ '']'')"
    using a c first [OF mem [of 24]] first [OF mem [of 39]] by (simp add: select_suffix_def)
qed

lemma example_names:
  "example_name 0 = ''a''" "example_name 22 = ''w''" "example_name 23 = ''x''"
  "example_name 24 = ''y''" "example_name 39 = ''z39''"
  by code_simp+

lemma uppers: "upper_char CHR ''a'' = CHR ''A''" "upper_char CHR ''w'' = CHR ''W''"
  "upper_char CHR ''y'' = CHR ''Y''" "upper_char CHR ''z'' = CHR ''Z''"
  by code_simp+

lemma cog_help_selectors_40:
  assumes "length cmds = 40" and "\<forall>c\<in>set cmds. name c \<noteq> []"
  shows "cog_help_selectors id ctx c cmds
     = Inr [(''Select a command['' @ [upper_char (hd (name (cmds ! 0)))] @ ''-''
               @ [upper_char (hd (name (cmds ! 22)))] @ '']'', take 24 cmds),
            (''Select a command['' @ [upper_char (hd (name (cmds ! 24)))] @ ''-''
               @ [upper_char (hd (name (cmds ! 39)))] @ '']'', drop 24 cmds)]"
proof -
  have sl: "py_slice cmds 0 24 = take 24 cmds" "py_slice cmds 24 48 = drop 24 cmds"
    using assms(1) by (simp_all add: py_slice_def)
  have ch: "children (HelpView pg a) = []" for pg a
    by (simp add: HelpView_def Let_def disable_buttons_def)
  have rg: "py_range 0 40 24 = [0, 24]"
    using range_40 by (simp add: SELECT_MAX_VALUES_def)
  show ?thesis
    by (simp add: cog_help_selectors_def cog_help_view_def Let_def assms(1) SELECT_MAX_VALUES_def
        rg select_suffix_40 [OF assms] sl add_item_def ch view_selectors_def CommandSelect_def)
qed

text \<open>
  C3 on 40 commands named \<open>a\<close>, ..., \<open>z\<close>, \<open>z26\<close>, ..., \<open>z39\<close>. The two selectors
  hold the commands \<open>[0,24)\<close> and \<open>[24,40)\<close>, as claimed. The label of the first is
  \<open>[A-W]\<close>: its second letter is read from \<open>commands[0:23][-1]\<close>, the command \<open>w\<close> at
  index 22, while the last command of the chunk, at index 23, is \<open>x\<close>.
\<close>

theorem selector_labels_40:
  "cog_help_selectors id example_ctx (example_cog 0) (example_commands 40)
     = Inr [(''Select a command[A-W]'', take 24 (example_commands 40)),
            (''Select a command[Y-Z]'', drop 24 (example_commands 40))]
   \<and> last (take 24 (example_commands 40)) = example_command 23
   \<and> name (example_command 23) = ''x''"
proof -
  have len: "length (example_commands 40) = 40" by (simp add: example_commands_def)
  have nth: "example_commands 40 ! k = example_command k" if "k < 40" for k
    using that by (simp add: example_commands_def)
  have ne: "\<forall>c\<in>set (example_commands 40). name c \<noteq> []"
    by (auto simp: example_commands_def example_command_def example_name_def)
  have nm: "name (example_command k) = example_name k" for k
    by (simp add: example_command_def)
  have "take 24 (example_commands 40) \<noteq> []"
    using len by auto
  then have "last (take 24 (example_commands 40)) = example_commands 40 ! 23"
    using len by (simp add: last_conv_nth)
  with cog_help_selectors_40 [OF len ne, of example_ctx "example_cog 0"] show ?thesis
    by (simp add: nth nm example_names uppers)
qed

end
